theory Spec2Isabelle
  imports Complex_Main
begin

section \<open>The sink filler of landlab\<close>

text \<open>
  The component \<open>HoleFiller\<close> of \<^verbatim>\<open>landlab/components/sink_fill/fill_sinks.py\<close> fills the closed depressions of an elevation field and can
  tilt every filled lake towards its outlet. Node ids are natural numbers, numpy arrays of
  floats are lists of reals (rounding is not modelled), and every exception of the Python
  code is a value \<open>Inl e\<close> of a sum type. The flow router, the depression mapper and the
  grid are collaborators whose code is not part of the component: they are parameters.
\<close>

subsection \<open>Exceptions and array access\<close>

datatype error =
    NameError string
  | IndexError
  | ValueError
  | FieldError string
  | StandardError string

text \<open>
  The module binds no global called \<open>mg\<close> or \<open>original_elev\<close> (it imports
  \<open>ModelParameterDictionary\<close>, \<open>Component\<close>, \<open>FieldError\<close>,
  \<open>FIXED_VALUE_BOUNDARY\<close>, \<open>MissingKeyError\<close>, \<open>DepressionFinderAndRouter\<close>,
  \<open>FlowRouter\<close>, \<open>BAD_INDEX_VALUE\<close> and \<open>np\<close>, and defines the class only), and
  neither is a local of \<open>fill_pits\<close>: evaluating such a name raises NameError.
\<close>

definition unbound_name :: "string \<Rightarrow> error + 'a" where
  "unbound_name n = Inl (NameError n)"

text \<open>\<open>a[idx]\<close> for an array of node ids: numpy raises IndexError when an id is out of range.\<close>

definition take_nodes :: "real list \<Rightarrow> nat list \<Rightarrow> error + real list" where
  "take_nodes a idx =
     (if list_all (\<lambda>i. i < length a) idx then Inr (map (\<lambda>i. a ! i) idx) else Inl IndexError)"

text \<open>The same for a two-dimensional array of node ids (one row per margin node).\<close>

definition take_rows :: "real list \<Rightarrow> nat list list \<Rightarrow> error + real list list" where
  "take_rows a rows =
     (if list_all (list_all (\<lambda>i. i < length a)) rows
      then Inr (map (map (\<lambda>i. a ! i)) rows) else Inl IndexError)"

text \<open>
  \<open>a += b\<close> on one-dimensional arrays: elementwise on arrays of one length; an array
  \<open>b\<close> of one element is broadcast over \<open>a\<close>; otherwise numpy raises ValueError.
\<close>

definition add_arrays :: "real list \<Rightarrow> real list \<Rightarrow> error + real list" where
  "add_arrays a b =
     (if length a = length b then Inr (map2 (+) a b)
      else if length b = 1 then Inr (map (\<lambda>x. x + b ! 0) a)
      else Inl ValueError)"

subsection \<open>The grid\<close>

text \<open>
  What the component asks of the grid: the node coordinates, and for every node the row of
  its orthogonal neighbours and the row of its diagonal neighbours (a raster grid fills
  the places of missing neighbours with \<open>BAD_INDEX_VALUE\<close>).
\<close>

record grid =
  node_x :: "real list"
  node_y :: "real list"
  neighbors :: "nat \<Rightarrow> nat list"
  diagonals :: "nat \<Rightarrow> nat list"

definition get_neighbor_list :: "grid \<Rightarrow> nat list \<Rightarrow> nat list list" where
  "get_neighbor_list g ids = map (neighbors g) ids"

definition get_diagonal_list :: "grid \<Rightarrow> nat list \<Rightarrow> nat list list" where
  "get_diagonal_list g ids = map (diagonals g) ids"

text \<open>\<open>np.union1d\<close> and \<open>np.setdiff1d\<close> flatten their arguments and return sorted
  arrays without duplicates.\<close>

definition union1d :: "nat list \<Rightarrow> nat list \<Rightarrow> nat list" where
  "union1d a b = sort (remdups (a @ b))"

definition setdiff1d :: "nat list \<Rightarrow> nat list \<Rightarrow> nat list" where
  "setdiff1d a b = filter (\<lambda>x. x \<notin> set b) (sort (remdups a))"

text \<open>\<open>np.where(a == v)[0]\<close> and \<open>np.where(a < v)[0]\<close>: the indices, ascending.\<close>

definition where_eq :: "nat list \<Rightarrow> nat \<Rightarrow> nat list" where
  "where_eq a v = filter (\<lambda>i. a ! i = v) [0..<length a]"

definition where_less :: "nat list \<Rightarrow> nat \<Rightarrow> nat list" where
  "where_less a v = filter (\<lambda>i. a ! i < v) [0..<length a]"

subsection \<open>Lake margins and the drainage test\<close>

definition get_lake_ext_margin :: "grid \<Rightarrow> nat list \<Rightarrow> nat list" where
  "get_lake_ext_margin g lake_nodes =
     (let all_poss = union1d (concat (get_neighbor_list g lake_nodes))
                             (concat (get_diagonal_list g lake_nodes));
          lake_ext_edge = setdiff1d all_poss lake_nodes
      in lake_ext_edge)"

text \<open>
  \<open>edge_elevs >= old_neighbor_elevs\<close> broadcasts the column of margin elevations over
  the rows of neighbour elevations; \<open>np.allclose\<close> of two boolean arrays of one shape
  holds exactly when they are equal (a difference of 1 exceeds the tolerance).
\<close>

definition ge_rows :: "real list \<Rightarrow> real list list \<Rightarrow> bool list list" where
  "ge_rows edge_elevs nbr_elevs = map2 (\<lambda>e row. map (\<lambda>n. e \<ge> n) row) edge_elevs nbr_elevs"

definition drainage_directions_change ::
  "grid \<Rightarrow> nat list \<Rightarrow> real list \<Rightarrow> real list \<Rightarrow> error + bool" where
  "drainage_directions_change g lake_nodes old_elevs new_elevs =
     (let ext_edge = get_lake_ext_margin g lake_nodes;
          edge_neighbors = get_neighbor_list g ext_edge
      in case take_rows old_elevs edge_neighbors of Inl e \<Rightarrow> Inl e
         | Inr old_neighbor_elevs \<Rightarrow>
        (case take_rows new_elevs edge_neighbors of Inl e \<Rightarrow> Inl e
         | Inr new_neighbor_elevs \<Rightarrow>
        (case take_nodes old_elevs ext_edge of Inl e \<Rightarrow> Inl e
         | Inr edge_elevs \<Rightarrow>
           (let cond = (ge_rows edge_elevs old_neighbor_elevs
                        = ge_rows edge_elevs new_neighbor_elevs)
            in Inr (\<not> cond)))))"

subsection \<open>Tilting one lake\<close>

text \<open>
  The node fields of the grid, by name. The elevation array is held by the component as
  \<open>self._elev\<close> and is kept apart; \<open>at_node\<close> is every other node field.
\<close>

type_synonym fields = "string \<Rightarrow> real list option"

text \<open>The attributes of the depression mapper \<open>self._lf\<close> that the component reads.\<close>

record lake_mapper =
  lake_outlets :: "nat list"
  depression_outlet :: "nat list"
  flood_status :: "nat list"

text \<open>
  The state of a \<open>HoleFiller\<close>: its arrays, the node fields of its grid, what the two
  collaborators last published, and the private state \<open>hidden\<close> of the collaborators.
\<close>

record 'w hole_filler =
  elev :: "real list"
  original_elev :: "real list"
  sed_fill_depth :: "real list"
  at_node :: fields
  lf :: lake_mapper
  pit_node_ids :: "nat list"
  hidden :: 'w

text \<open>
  Modelled from the spec: \<open>get_distances_of_nodes_to_point\<close> is a method of the grid,
  whose code is not part of the component; it is the planar distance from each node of
  the subset to the point.
\<close>

definition get_distances_of_nodes_to_point ::
  "grid \<Rightarrow> real \<times> real \<Rightarrow> nat list \<Rightarrow> error + real list" where
  "get_distances_of_nodes_to_point g tuple_xy node_subset =
     (case take_nodes (node_x g) node_subset of Inl e \<Rightarrow> Inl e
      | Inr xs \<Rightarrow>
     (case take_nodes (node_y g) node_subset of Inl e \<Rightarrow> Inl e
      | Inr ys \<Rightarrow>
        Inr (map2 (\<lambda>x y. sqrt ((x - fst tuple_xy)\<^sup>2 + (y - snd tuple_xy)\<^sup>2)) xs ys)))"

text \<open>
  \<open>a[idx] += vals\<close>: every value is read from the array as it was, then written.
  Wherever the component does this or \<open>a[idx] = vals\<close>, the values were computed
  from \<open>idx\<close> and have its length.
\<close>

definition add_at :: "real list \<Rightarrow> nat list \<Rightarrow> real list \<Rightarrow> error + real list" where
  "add_at a idx vals =
     (if list_all (\<lambda>i. i < length a) idx
      then (if length idx = length vals
            then Inr (fold (\<lambda>iv acc. acc[fst iv := a ! fst iv + snd iv]) (zip idx vals) a)
            else Inl ValueError)
      else Inl IndexError)"

text \<open>\<open>a[idx] = vals\<close>.\<close>

definition put_at :: "real list \<Rightarrow> nat list \<Rightarrow> real list \<Rightarrow> error + real list" where
  "put_at a idx vals =
     (if list_all (\<lambda>i. i < length a) idx
      then (if length idx = length vals
            then Inr (fold (\<lambda>iv acc. acc[fst iv := snd iv]) (zip idx vals) a)
            else Inl ValueError)
      else Inl IndexError)"

definition add_slopes ::
  "grid \<Rightarrow> 'w hole_filler \<Rightarrow> real \<Rightarrow> nat \<Rightarrow> error + real list \<times> nat list" where
  "add_slopes g st slope outlet_node =
     (let new_elevs = elev st
      in if outlet_node < length (node_x g) \<and> outlet_node < length (node_y g)
         then
           (let outlet_coord = (node_x g ! outlet_node, node_y g ! outlet_node);
                lake_nodes = where_eq (depression_outlet (lf st)) outlet_node;
                lake_ext_margin = get_lake_ext_margin g lake_nodes
            in case get_distances_of_nodes_to_point g outlet_coord lake_nodes of
                 Inl e \<Rightarrow> Inl e
               | Inr dists \<Rightarrow>
                 (let add_vals = map (\<lambda>d. slope * d) dists
                  in case add_at new_elevs lake_nodes add_vals of
                       Inl e \<Rightarrow> Inl e
                     | Inr new_elevs' \<Rightarrow> Inr (new_elevs', lake_nodes)))
         else Inl IndexError)"

text \<open>
  The loop of \<open>apply_slope_current_lake\<close> has no bound: not returning is the value
  \<open>None\<close>. The slope is a local of the call, so its reductions are not seen by the
  caller; the elevations are.
\<close>

partial_function (option) apply_slope_current_lake ::
  "grid \<Rightarrow> real \<Rightarrow> nat \<Rightarrow> bool \<Rightarrow> 'w hole_filler \<Rightarrow> (error + 'w hole_filler) option" where
  "apply_slope_current_lake g apply_slope outlet_node sublake st =
     (let starting_elevs = elev st
      in case add_slopes g st apply_slope outlet_node of
           Inl e \<Rightarrow> Some (Inl e)
         | Inr tilted \<Rightarrow>
           (let st1 = st\<lparr>elev := fst tilted\<rparr>;
                lake_nodes = snd tilted;
                ext_edge = get_lake_ext_margin g lake_nodes
            in if sublake then Some (Inr st1)
               else
                 (case drainage_directions_change g lake_nodes starting_elevs (elev st1) of
                    Inl e \<Rightarrow> Some (Inl e)
                  | Inr changed \<Rightarrow>
                    if changed then Some (Inr st1)
                    else
                      (case take_nodes starting_elevs lake_nodes of
                         Inl e \<Rightarrow> Some (Inl e)
                       | Inr vals \<Rightarrow>
                         (case put_at (elev st1) lake_nodes vals of
                            Inl e \<Rightarrow> Some (Inl e)
                          | Inr put_back \<Rightarrow>
                            apply_slope_current_lake g (apply_slope * 0.1) outlet_node sublake
                              (st1\<lparr>elev := put_back\<rparr>))))))"

text \<open>\<open>for outlet_node in self._lf.lake_outlets: self.apply_slope_current_lake(...)\<close>\<close>

fun apply_slope_all_lakes ::
  "grid \<Rightarrow> real \<Rightarrow> bool \<Rightarrow> nat list \<Rightarrow> 'w hole_filler \<Rightarrow> (error + 'w hole_filler) option" where
  "apply_slope_all_lakes g apply_slope sublake [] st = Some (Inr st)"
| "apply_slope_all_lakes g apply_slope sublake (outlet_node # rest) st =
     (case apply_slope_current_lake g apply_slope outlet_node sublake st of
        None \<Rightarrow> None
      | Some (Inl e) \<Rightarrow> Some (Inl e)
      | Some (Inr st') \<Rightarrow> apply_slope_all_lakes g apply_slope sublake rest st')"

subsection \<open>The collaborators\<close>

text \<open>
  The flow router and the depression mapper read the elevations and the node fields, keep
  a state of their own, and publish node fields and attributes. \<open>route_flow\<close> publishes
  \<open>pit_node_ids\<close>; \<open>map_depressions\<close> takes the arguments \<open>pits\<close> and
  \<open>reroute_flow\<close> and publishes the attributes of \<open>lake_mapper\<close>. The names of their
  output fields stand in the order in which the union of the two sets is iterated.
\<close>

record 'w collaborators =
  lf_output_var_names :: "string list"
  fr_output_var_names :: "string list"
  route_flow :: "'w \<Rightarrow> real list \<Rightarrow> fields \<Rightarrow> 'w \<times> fields \<times> nat list"
  map_depressions ::
    "'w \<Rightarrow> nat list option \<Rightarrow> bool \<Rightarrow> real list \<Rightarrow> fields \<Rightarrow> 'w \<times> fields \<times> lake_mapper"
  BAD_INDEX_VALUE :: nat

definition call_route_flow :: "'w collaborators \<Rightarrow> 'w hole_filler \<Rightarrow> 'w hole_filler" where
  "call_route_flow c st =
     (case route_flow c (hidden st) (elev st) (at_node st) of
        (w, a, pits) \<Rightarrow> st\<lparr>hidden := w, at_node := a, pit_node_ids := pits\<rparr>)"

definition call_map_depressions ::
  "'w collaborators \<Rightarrow> nat list option \<Rightarrow> bool \<Rightarrow> 'w hole_filler \<Rightarrow> 'w hole_filler" where
  "call_map_depressions c pits reroute_flow st =
     (case map_depressions c (hidden st) pits reroute_flow (elev st) (at_node st) of
        (w, a, m) \<Rightarrow> st\<lparr>hidden := w, at_node := a, lf := m\<rparr>)"

text \<open>
  Modelled from the spec: \<open>self.at_node\<close> would be an attribute of the base class
  \<open>Component\<close>, whose code is not part of the component; the depression depth is read
  as the node field of that name, and added to the elevations in place.
\<close>

definition add_depression_depth :: "'w hole_filler \<Rightarrow> error + 'w hole_filler" where
  "add_depression_depth st =
     (case at_node st ''depression__depth'' of
        None \<Rightarrow> Inl (FieldError ''depression__depth'')
      | Some depth \<Rightarrow>
        (case add_arrays (elev st) depth of
           Inl e \<Rightarrow> Inl e
         | Inr raised \<Rightarrow> Inr (st\<lparr>elev := raised\<rparr>)))"

subsection \<open>The slope rounds and the stability loop\<close>

text \<open>The inner \<open>while 1\<close> of \<open>fill_pits\<close>.\<close>

partial_function (option) slope_rounds ::
  "grid \<Rightarrow> 'w collaborators \<Rightarrow> real \<Rightarrow> bool \<Rightarrow> 'w hole_filler
     \<Rightarrow> (error + 'w hole_filler) option" where
  "slope_rounds g c apply_slope sublake st =
     (case apply_slope_all_lakes g apply_slope sublake (lake_outlets (lf st)) st of
        None \<Rightarrow> None
      | Some (Inl e) \<Rightarrow> Some (Inl e)
      | Some (Inr st1) \<Rightarrow>
        (let st2 = call_map_depressions c None False st1
         in if sum_list (lake_outlets (lf st2)) = 0 then Some (Inr st2)
            else
              (case add_depression_depth st2 of
                 Inl e \<Rightarrow> Some (Inl e)
               | Inr st3 \<Rightarrow> slope_rounds g c apply_slope True st3)))"

text \<open>The outer \<open>while unstable\<close> of \<open>fill_pits\<close>.\<close>

partial_function (option) stabilize ::
  "grid \<Rightarrow> 'w collaborators \<Rightarrow> real \<Rightarrow> bool \<Rightarrow> nat \<Rightarrow> 'w hole_filler
     \<Rightarrow> (error + 'w hole_filler) option" where
  "stabilize g c apply_slope sublake stability_increment st =
     (case slope_rounds g c apply_slope sublake st of
        None \<Rightarrow> None
      | Some (Inl e) \<Rightarrow> Some (Inl e)
      | Some (Inr st1) \<Rightarrow>
        (let all_lakes = where_less (flood_status (lf st1)) (BAD_INDEX_VALUE c)
         in case drainage_directions_change g all_lakes (original_elev st1) (elev st1) of
              Inl e \<Rightarrow> Some (Inl e)
            | Inr unstable \<Rightarrow>
              if unstable
              then
                (let apply_slope' = apply_slope * 0.1;
                     sublake' = False
                 in case unbound_name ''original_elev'' of
                      Inl e \<Rightarrow> Some (Inl e)
                    | Inr init_conds \<Rightarrow>
                      (let st2 = st1\<lparr>elev := init_conds\<rparr>;
                           stability_increment' = stability_increment + 1
                       in if stability_increment' = 10
                          then Some (Inl (StandardError
                                 ''Filler could not find a stable condition with a sloping surface!''))
                          else stabilize g c apply_slope' sublake' stability_increment' st2))
              else Some (Inr st1)))"

subsection \<open>The main method\<close>

text \<open>
  The loop over the output fields of the collaborators: a field found on the grid is
  copied into the dictionary \<open>existing_fields\<close>, a missing one is added to
  \<open>spurious_fields\<close>. The grid is named \<open>mg\<close> there.
\<close>

fun note_fields ::
  "string list \<Rightarrow> (string \<times> real list) list \<times> string list
     \<Rightarrow> error + (string \<times> real list) list \<times> string list" where
  "note_fields [] found = Inr found"
| "note_fields (field # rest) found =
     (case unbound_name ''mg'' of
        Inl e \<Rightarrow> Inl e
      | Inr mg_at_node \<Rightarrow>
        (case (mg_at_node :: fields) field of
           Some values \<Rightarrow> note_fields rest (fst found @ [(field, values)], snd found)
         | None \<Rightarrow> note_fields rest (fst found, snd found @ [field])))"

text \<open>The two loops that put the fields back, and the output field.\<close>

definition put_back_fields ::
  "(string \<times> real list) list \<Rightarrow> string list \<Rightarrow> 'w hole_filler \<Rightarrow> 'w hole_filler" where
  "put_back_fields existing_fields spurious_fields st =
     (let deleted = fold (\<lambda>delete_me a. a(delete_me := None)) spurious_fields (at_node st);
          updated = fold (\<lambda>update_me a. a(fst update_me \<mapsto> snd update_me)) existing_fields deleted
      in st\<lparr>at_node := updated,
            sed_fill_depth := map2 (\<lambda>z z0. z - z0) (elev st) (original_elev st)\<rparr>)"

definition fill_pits ::
  "grid \<Rightarrow> 'w collaborators \<Rightarrow> 'w hole_filler \<Rightarrow> real option
     \<Rightarrow> (error + 'w hole_filler) option" where
  "fill_pits g c st apply_slope =
     (let st0 = st\<lparr>original_elev := elev st\<rparr>
      in case note_fields (remdups (lf_output_var_names c @ fr_output_var_names c)) ([], []) of
           Inl e \<Rightarrow> Some (Inl e)
         | Inr found \<Rightarrow>
           (let st1 = call_route_flow c st0;
                st2 = call_map_depressions c (Some (pit_node_ids st1)) False st1
            in case add_depression_depth st2 of
                 Inl e \<Rightarrow> Some (Inl e)
               | Inr st3 \<Rightarrow>
                 (case (case apply_slope of
                          None \<Rightarrow> Some (Inr st3)
                        | Some slope \<Rightarrow>
                            if slope \<noteq> 0 then stabilize g c slope False 0 st3
                            else Some (Inr st3)) of
                    None \<Rightarrow> None
                  | Some (Inl e) \<Rightarrow> Some (Inl e)
                  | Some (Inr st4) \<Rightarrow> Some (Inr (put_back_fields (fst found) (snd found) st4)))))"

subsection \<open>Notions used in the statements\<close>

text \<open>The planar distance between two nodes of the grid, as the spec words it.\<close>

definition planar_distance :: "grid \<Rightarrow> nat \<Rightarrow> nat \<Rightarrow> real" where
  "planar_distance g node outlet_node =
     sqrt ((node_x g ! node - node_x g ! outlet_node)\<^sup>2
           + (node_y g ! node - node_y g ! outlet_node)\<^sup>2)"

text \<open>Every depth field that the depression mapper publishes is elementwise non-negative.\<close>

definition depths_nonneg :: "'w collaborators \<Rightarrow> bool" where
  "depths_nonneg c =
     (\<forall>w pits reroute z a.
        case map_depressions c w pits reroute z a of
          (w', a', m) \<Rightarrow>
            (case a' ''depression__depth'' of
               None \<Rightarrow> True
             | Some depth \<Rightarrow> list_all (\<lambda>d. 0 \<le> d) depth))"

text \<open>
  The indices that \<open>drainage_directions_change\<close> reads are in range: every margin node
  in the old elevations, every orthogonal neighbour of a margin node in both arrays.
\<close>

definition margin_in_range :: "grid \<Rightarrow> nat list \<Rightarrow> real list \<Rightarrow> real list \<Rightarrow> bool" where
  "margin_in_range g lake_nodes old_elevs new_elevs =
     list_all (\<lambda>e. e < length old_elevs \<and>
                   list_all (\<lambda>n. n < length old_elevs \<and> n < length new_elevs) (neighbors g e))
       (get_lake_ext_margin g lake_nodes)"

text \<open>
  The relation of a margin node \<open>e\<close> to its neighbour \<open>n\<close> as the spec words the test:
  both elevations from the old state on one side, both from the new state on the other.
\<close>

definition relation_flips_spec :: "real list \<Rightarrow> real list \<Rightarrow> nat \<Rightarrow> nat \<Rightarrow> bool" where
  "relation_flips_spec old_elevs new_elevs e n =
     ((old_elevs ! e \<ge> old_elevs ! n) \<noteq> (new_elevs ! e \<ge> new_elevs ! n))"

text \<open>The same relation as the code compares it: the margin node keeps its old elevation.\<close>

definition relation_flips :: "real list \<Rightarrow> real list \<Rightarrow> nat \<Rightarrow> nat \<Rightarrow> bool" where
  "relation_flips old_elevs new_elevs e n =
     ((old_elevs ! e \<ge> old_elevs ! n) \<noteq> (old_elevs ! e \<ge> new_elevs ! n))"

text \<open>
  A step that ends in the state \<open>st'\<close> keeps the snapshot and, under the condition
  \<open>b\<close> on its inputs, lowers no elevation.
\<close>

definition raised_if :: "bool \<Rightarrow> 'w hole_filler \<Rightarrow> error + 'w hole_filler \<Rightarrow> bool" where
  "raised_if b st r =
     (case r of
        Inl e \<Rightarrow> True
      | Inr st' \<Rightarrow> original_elev st' = original_elev st
                  \<and> (b \<longrightarrow> list_all2 (\<le>) (elev st) (elev st')))"

subsection \<open>A raster of five by five nodes with one pond\<close>

text \<open>
  A raster grid of 5 rows and 5 columns with unit spacing; node \<open>i\<close> lies in row
  \<open>i div 5\<close> and column \<open>i mod 5\<close>. The neighbour rows are (right, top, left, bottom)
  and the diagonal rows (top right, top left, bottom left, bottom right); a place with no
  node holds the largest 32-bit integer, landlab's \<open>BAD_INDEX_VALUE\<close>.
\<close>

definition no_node :: nat where
  "no_node = 2147483647"

definition raster5 :: grid where
  "raster5 =
     \<lparr>node_x = [0,1,2,3,4, 0,1,2,3,4, 0,1,2,3,4, 0,1,2,3,4, 0,1,2,3,4],
      node_y = [0,0,0,0,0, 1,1,1,1,1, 2,2,2,2,2, 3,3,3,3,3, 4,4,4,4,4],
      neighbors = (\<lambda>i. [if i mod 5 < 4 then i + 1 else no_node,
                         if i div 5 < 4 then i + 5 else no_node,
                         if 0 < i mod 5 then i - 1 else no_node,
                         if 0 < i div 5 then i - 5 else no_node]),
      diagonals = (\<lambda>i. [if i mod 5 < 4 \<and> i div 5 < 4 then i + 6 else no_node,
                         if 0 < i mod 5 \<and> i div 5 < 4 then i + 4 else no_node,
                         if 0 < i mod 5 \<and> 0 < i div 5 then i - 6 else no_node,
                         if i mod 5 < 4 \<and> 0 < i div 5 then i - 4 else no_node])\<rparr>"

text \<open>An array over the 25 nodes with one value at the central node 12.\<close>

definition on_node12 :: "'a \<Rightarrow> 'a \<Rightarrow> 'a list" where
  "on_node12 v other =
     [other,other,other,other,other, other,other,other,other,other,
      other,other,v,other,other, other,other,other,other,other,
      other,other,other,other,other]"

text \<open>
  Elevations: node 12 at \<open>z12\<close>, its right neighbour 13 at 1, the boundary node 14 at 0,
  the corner node 0 at \<open>z0\<close>, node 6 at \<open>z6\<close>, every other node at 2. With
  \<open>z12 < 1\<close> node 12 is a pit whose lake spills over node 13.
\<close>

definition basin :: "real \<Rightarrow> real \<Rightarrow> real \<Rightarrow> real list" where
  "basin z0 z6 z12 = [z0,2,2,2,2, 2,z6,2,2,2, 2,2,z12,1,0, 2,2,2,2,2, 2,2,2,2,2]"

text \<open>
  A third surface: as \<open>basin 2 2 z12\<close>, but with the left neighbour 11 of node 12 at
  10005/10000 and the boundary node 10 beyond it at 0. Node 11 drains to node 10; the
  lowest node of the rim of the pit 12 is still node 13, the outlet of its lake.
\<close>

definition shelf :: "real \<Rightarrow> real list" where
  "shelf z12 = [2,2,2,2,2, 2,2,2,2,2, 0,10005/10000,z12,1,0, 2,2,2,2,2, 2,2,2,2,2]"

text \<open>What a mapper publishes: no lake at all; the lake of node 12 with outlet 13; no
  lake, but node 12 still marked as flooded; a lake of node 6 that drains to the corner
  node 0, with the depth of that lake.\<close>

definition no_lake :: lake_mapper where
  "no_lake = \<lparr>lake_outlets = [], depression_outlet = on_node12 no_node no_node,
              flood_status = on_node12 no_node no_node\<rparr>"

definition lake12 :: lake_mapper where
  "lake12 = \<lparr>lake_outlets = [13], depression_outlet = on_node12 13 no_node,
             flood_status = on_node12 3 no_node\<rparr>"

definition flagged12 :: lake_mapper where
  "flagged12 = \<lparr>lake_outlets = [], depression_outlet = on_node12 no_node no_node,
                flood_status = on_node12 3 no_node\<rparr>"

definition corner_lake :: lake_mapper where
  "corner_lake =
     \<lparr>lake_outlets = [0],
      depression_outlet =
        [no_node,no_node,no_node,no_node,no_node, no_node,0,no_node,no_node,no_node,
         no_node,no_node,no_node,no_node,no_node, no_node,no_node,no_node,no_node,no_node,
         no_node,no_node,no_node,no_node,no_node],
      flood_status =
        [no_node,no_node,no_node,no_node,no_node, no_node,3,no_node,no_node,no_node,
         no_node,no_node,no_node,no_node,no_node, no_node,no_node,no_node,no_node,no_node,
         no_node,no_node,no_node,no_node,no_node]\<rparr>"

definition corner_depth :: "real list" where
  "corner_depth = [0,0,0,0,0, 0,3/10000,0,0,0, 0,0,0,0,0, 0,0,0,0,0, 0,0,0,0,0]"

text \<open>
  Collaborators for this grid. While node 12 lies below node 13 the router reports the
  pit 12 and the mapper the lake of node 12, with the depth that raises it to node 13;
  once it does not, the router reports no pit and the mapper publishes \<open>later\<close> and
  \<open>later_depth\<close>. Their output fields are named \<open>lf_names\<close> and \<open>fr_names\<close>.
\<close>

definition pond ::
  "string list \<Rightarrow> string list \<Rightarrow> lake_mapper \<Rightarrow> real list \<Rightarrow> unit collaborators" where
  "pond lf_names fr_names later later_depth =
     \<lparr>lf_output_var_names = lf_names, fr_output_var_names = fr_names,
      route_flow = (\<lambda>w z a. (w, a, if z ! 12 < z ! 13 then [12] else [])),
      map_depressions = (\<lambda>w pits reroute z a.
         if z ! 12 < z ! 13
         then (w, a(''depression__depth'' \<mapsto> on_node12 (z ! 13 - z ! 12) 0), lake12)
         else (w, a(''depression__depth'' \<mapsto> later_depth), later)),
      BAD_INDEX_VALUE = no_node\<rparr>"

text \<open>A component on elevations \<open>z\<close> before its first fill, and the state in which the
  lake of node 12 has just been filled to the level of its outlet.\<close>

definition filler :: "real list \<Rightarrow> unit hole_filler" where
  "filler z = \<lparr>elev = z, original_elev = [], sed_fill_depth = on_node12 0 0,
               at_node = Map.empty, lf = no_lake, pit_node_ids = [], hidden = ()\<rparr>"

definition filled :: "real \<Rightarrow> real \<Rightarrow> real \<Rightarrow> unit hole_filler" where
  "filled z0 z6 z12 =
     \<lparr>elev = basin z0 z6 1, original_elev = basin z0 z6 z12,
      sed_fill_depth = on_node12 0 0,
      at_node = [''depression__depth'' \<mapsto> on_node12 (1 - z12) 0],
      lf = lake12, pit_node_ids = [12], hidden = ()\<rparr>"

text \<open>
  A second surface: the pit 12 again, with every orthogonal neighbour at 2 and the lowest
  node of its rim at the diagonal neighbour 18 (at 1), which drains to the corner 24; the
  lake of node 12 then has outlet 18, and \<open>filled_diagonal\<close> is the component after
  the flat fill of that lake.
\<close>

definition ridge :: "real \<Rightarrow> real list" where
  "ridge z12 = [2,2,2,2,2, 2,2,2,2,2, 2,2,z12,2,2, 2,2,2,1,2, 2,2,2,2,0]"

definition diagonal_lake :: lake_mapper where
  "diagonal_lake = \<lparr>lake_outlets = [18], depression_outlet = on_node12 18 no_node,
                     flood_status = on_node12 3 no_node\<rparr>"

definition filled_diagonal :: "unit hole_filler" where
  "filled_diagonal =
     \<lparr>elev = ridge 1, original_elev = ridge 0,
      sed_fill_depth = on_node12 0 0,
      at_node = [''depression__depth'' \<mapsto> on_node12 1 0],
      lf = diagonal_lake, pit_node_ids = [12], hidden = ()\<rparr>"

section \<open>Properties\<close>

subsection \<open>Array access\<close>

lemma take_nodes_Inr:
  "take_nodes a idx = Inr vs \<longleftrightarrow>
     (list_all (\<lambda>i. i < length a) idx \<and> vs = map (\<lambda>i. a ! i) idx)"
  by (auto simp: take_nodes_def)

lemma take_rows_Inr:
  "take_rows a rows = Inr vs \<longleftrightarrow>
     (list_all (list_all (\<lambda>i. i < length a)) rows \<and> vs = map (map (\<lambda>i. a ! i)) rows)"
  by (auto simp: take_rows_def)

lemma zip_map_same: "zip idx (map f idx) = map (\<lambda>i. (i, f i)) idx"
  by (induction idx) simp_all

lemma map2_map_same: "map2 f (map a xs) (map b xs) = map (\<lambda>x. f (a x) (b x)) xs"
  by (induction xs) simp_all

lemma fold_add_length:
  "length (fold (\<lambda>iv acc. acc[fst iv := a ! fst iv + snd iv]) ivs b) = length b"
  by (induction ivs arbitrary: b) simp_all

lemma fold_add_nth:
  "j < length b \<Longrightarrow>
   fold (\<lambda>iv acc. acc[fst iv := a ! fst iv + snd iv]) (map (\<lambda>i. (i, f i)) idx) b ! j
     = (if j \<in> set idx then a ! j + f j else b ! j)"
proof (induction idx arbitrary: b)
  case Nil
  then show ?case by simp
next
  case (Cons i idx)
  then show ?case by (simp add: nth_list_update)
qed

lemma add_at_Inr:
  assumes "add_at a idx (map f idx) = Inr r"
  shows "length r = length a"
    and "j < length a \<Longrightarrow> r ! j = (if j \<in> set idx then a ! j + f j else a ! j)"
  using assms fold_add_nth [of j a a f idx]
  by (auto simp: add_at_def fold_add_length zip_map_same split: if_splits)

lemma fold_put_length:
  "length (fold (\<lambda>iv acc. acc[fst iv := snd iv]) ivs b) = length b"
  by (induction ivs arbitrary: b) simp_all

lemma fold_put_nth:
  "j < length b \<Longrightarrow>
   fold (\<lambda>iv acc. acc[fst iv := snd iv]) (map (\<lambda>i. (i, f i)) idx) b ! j
     = (if j \<in> set idx then f j else b ! j)"
proof (induction idx arbitrary: b)
  case Nil
  then show ?case by simp
next
  case (Cons i idx)
  then show ?case by (simp add: nth_list_update)
qed

lemma put_at_Inr:
  assumes "put_at a idx (map f idx) = Inr r"
  shows "length r = length a"
    and "j < length a \<Longrightarrow> r ! j = (if j \<in> set idx then f j else a ! j)"
  using assms fold_put_nth [of j a f idx]
  by (auto simp: put_at_def fold_put_length zip_map_same split: if_splits)

lemma set_where_eq: "set (where_eq a v) = {i. i < length a \<and> a ! i = v}"
  by (auto simp: where_eq_def)

subsection \<open>The margin and the drainage test\<close>

lemma set_union1d: "set (union1d a b) = set a \<union> set b"
  by (simp add: union1d_def)

lemma set_setdiff1d: "set (setdiff1d a b) = set a - set b"
  by (auto simp: setdiff1d_def)

lemma ge_rows_map:
  "ge_rows (map f xs) (map (\<lambda>x. map h (r x)) xs)
     = map (\<lambda>x. map (\<lambda>n. f x \<ge> h n) (r x)) xs"
  by (induction xs) (simp_all add: ge_rows_def)

lemma drainage_directions_change_Inr:
  assumes "drainage_directions_change g lake_nodes old_elevs new_elevs = Inr b"
  shows "b = (\<exists>e \<in> set (get_lake_ext_margin g lake_nodes). \<exists>n \<in> set (neighbors g e).
                relation_flips old_elevs new_elevs e n)"
  using assms
  by (auto simp: drainage_directions_change_def Let_def take_rows_Inr take_nodes_Inr
        get_neighbor_list_def comp_def ge_rows_map relation_flips_def
      split: sum.splits)

lemma drainage_directions_change_cases:
  "drainage_directions_change g lake_nodes old_elevs new_elevs =
     (if margin_in_range g lake_nodes old_elevs new_elevs
      then Inr (\<exists>e \<in> set (get_lake_ext_margin g lake_nodes). \<exists>n \<in> set (neighbors g e).
                  relation_flips old_elevs new_elevs e n)
      else Inl IndexError)"
proof (cases "drainage_directions_change g lake_nodes old_elevs new_elevs")
  case (Inl e)
  then show ?thesis
    by (auto simp: drainage_directions_change_def Let_def take_rows_def take_nodes_def
        get_neighbor_list_def list_all_iff margin_in_range_def split: if_splits)
next
  case (Inr b)
  moreover from Inr have "margin_in_range g lake_nodes old_elevs new_elevs"
    by (auto simp: drainage_directions_change_def Let_def take_rows_def take_nodes_def
        get_neighbor_list_def list_all_iff margin_in_range_def split: if_splits)
  ultimately show ?thesis
    using drainage_directions_change_Inr [OF Inr] by simp
qed

subsection \<open>Tilting\<close>

lemma distances_Inr:
  "get_distances_of_nodes_to_point g (node_x g ! out, node_y g ! out) nodes = Inr ds
   \<Longrightarrow> ds = map (\<lambda>i. planar_distance g i out) nodes"
  by (auto simp: get_distances_of_nodes_to_point_def take_nodes_Inr planar_distance_def
        map2_map_same split: sum.splits)

lemma planar_distance_nonneg: "0 \<le> planar_distance g i out"
  by (simp add: planar_distance_def)

lemma add_slopes_Inr:
  assumes "add_slopes g st slope outlet_node = Inr (new_elevs, lake_nodes)"
  shows "lake_nodes = where_eq (depression_outlet (lf st)) outlet_node"
    and "length new_elevs = length (elev st)"
    and "i < length (elev st) \<Longrightarrow>
           new_elevs ! i = (if i \<in> set lake_nodes
                            then elev st ! i + slope * planar_distance g i outlet_node
                            else elev st ! i)"
proof -
  from assms obtain ds where
      ln: "lake_nodes = where_eq (depression_outlet (lf st)) outlet_node"
    and ds: "get_distances_of_nodes_to_point g
               (node_x g ! outlet_node, node_y g ! outlet_node) lake_nodes = Inr ds"
    and ad: "add_at (elev st) lake_nodes (map (\<lambda>d. slope * d) ds) = Inr new_elevs"
    by (auto simp: add_slopes_def Let_def split: if_splits sum.splits)
  from distances_Inr [OF ds]
  have "map (\<lambda>d. slope * d) ds = map (\<lambda>i. slope * planar_distance g i outlet_node) lake_nodes"
    by simp
  with ad have ad': "add_at (elev st) lake_nodes
       (map (\<lambda>i. slope * planar_distance g i outlet_node) lake_nodes) = Inr new_elevs"
    by simp
  show "lake_nodes = where_eq (depression_outlet (lf st)) outlet_node" by (rule ln)
  show "length new_elevs = length (elev st)" by (rule add_at_Inr(1) [OF ad'])
  show "new_elevs ! i = (if i \<in> set lake_nodes
                            then elev st ! i + slope * planar_distance g i outlet_node
                            else elev st ! i)" if "i < length (elev st)"
    using add_at_Inr(2) [OF ad' that] .
qed

lemma add_slopes_raises:
  assumes "add_slopes g st slope outlet_node = Inr (new_elevs, lake_nodes)" and "0 \<le> slope"
  shows "list_all2 (\<le>) (elev st) new_elevs"
  using add_slopes_Inr(2,3) [OF assms(1)] assms(2)
  by (auto simp: list_all2_conv_all_nth planar_distance_nonneg)

subsection \<open>Elevations are only raised\<close>

lemma list_all2_le_trans:
  "list_all2 (\<le>) (a :: real list) b \<Longrightarrow> list_all2 (\<le>) b c \<Longrightarrow> list_all2 (\<le>) a c"
  by (rule list_all2_trans [where ?P1.0 = "(\<le>)" and ?P2.0 = "(\<le>)"]) auto

lemma raised_if_refl: "raised_if b st (Inr st)"
  by (simp add: raised_if_def list_all2_conv_all_nth)

lemma raised_if_trans: "raised_if b st (Inr st1) \<Longrightarrow> raised_if b st1 r \<Longrightarrow> raised_if b st r"
  by (auto simp: raised_if_def intro: list_all2_le_trans split: sum.splits)

lemma raised_if_weaken: "raised_if b st r \<Longrightarrow> (b' \<Longrightarrow> b) \<Longrightarrow> raised_if b' st r"
  by (auto simp: raised_if_def split: sum.splits)

lemma apply_slope_current_lake_raised:
  assumes run: "apply_slope_current_lake g apply_slope outlet_node sublake st = Some r"
  shows "raised_if (0 \<le> apply_slope) st r"
proof (rule apply_slope_current_lake.raw_induct
         [OF _ run, where P = "\<lambda>g apply_slope outlet_node sublake st r.
                                  raised_if (0 \<le> apply_slope) st r"])
  fix self g apply_slope outlet_node sublake and st :: "'a hole_filler" and r
  assume IH: "\<And>g apply_slope outlet_node sublake st r.
                  self g apply_slope outlet_node sublake st = Some r \<Longrightarrow>
                  raised_if (0 \<le> apply_slope) st r"
    and body: "(let starting_elevs = elev st
      in case add_slopes g st apply_slope outlet_node of
           Inl e \<Rightarrow> Some (Inl e)
         | Inr tilted \<Rightarrow>
           (let st1 = st\<lparr>elev := fst tilted\<rparr>;
                lake_nodes = snd tilted;
                ext_edge = get_lake_ext_margin g lake_nodes
            in if sublake then Some (Inr st1)
               else
                 (case drainage_directions_change g lake_nodes starting_elevs (elev st1) of
                    Inl e \<Rightarrow> Some (Inl e)
                  | Inr changed \<Rightarrow>
                    if changed then Some (Inr st1)
                    else
                      (case take_nodes starting_elevs lake_nodes of
                         Inl e \<Rightarrow> Some (Inl e)
                       | Inr vals \<Rightarrow>
                         (case put_at (elev st1) lake_nodes vals of
                            Inl e \<Rightarrow> Some (Inl e)
                          | Inr put_back \<Rightarrow>
                            self g (apply_slope * (1 / 10)) outlet_node sublake
                              (st1\<lparr>elev := put_back\<rparr>)))))) = Some r"
  show "raised_if (0 \<le> apply_slope) st r"
  proof (cases r)
    case (Inl e)
    then show ?thesis by (simp add: raised_if_def)
  next
    case (Inr st')
    with body obtain new_elevs lake_nodes where
      as: "add_slopes g st apply_slope outlet_node = Inr (new_elevs, lake_nodes)"
      by (auto simp: Let_def split: sum.splits)
    have up: "0 \<le> apply_slope \<Longrightarrow> list_all2 (\<le>) (elev st) new_elevs"
      by (rule add_slopes_raises [OF as])
    have len: "length new_elevs = length (elev st)"
      by (rule add_slopes_Inr(2) [OF as])
    show ?thesis
    proof (cases "sublake \<or> drainage_directions_change g lake_nodes (elev st) new_elevs = Inr True")
      case True
      with body Inr as have "st' = st\<lparr>elev := new_elevs\<rparr>"
        by (auto simp: Let_def split: sum.splits if_splits)
      with up Inr show ?thesis by (simp add: raised_if_def)
    next
      case False
      with body Inr as obtain put_back where
        pb: "put_at new_elevs lake_nodes (map (\<lambda>i. elev st ! i) lake_nodes) = Inr put_back"
        and rec: "self g (apply_slope * (1 / 10)) outlet_node sublake
                  (st\<lparr>elev := put_back\<rparr>) = Some (Inr st')"
        by (auto simp: Let_def take_nodes_Inr split: sum.splits if_splits)
      have a: "0 \<le> apply_slope \<Longrightarrow> list_all2 (\<le>) (elev st) put_back"
        using put_at_Inr [OF pb] up len
        by (auto simp: list_all2_conv_all_nth)
      have "raised_if (0 \<le> apply_slope * (1 / 10)) (st\<lparr>elev := put_back\<rparr>) (Inr st')"
        by (rule IH [OF rec])
      then have "original_elev st' = original_elev st"
        and "0 \<le> apply_slope \<Longrightarrow> list_all2 (\<le>) put_back (elev st')"
        by (simp_all add: raised_if_def)
      with a Inr show ?thesis
        by (auto simp: raised_if_def intro: list_all2_le_trans)
    qed
  qed
qed

lemma apply_slope_all_lakes_raised:
  "apply_slope_all_lakes g apply_slope sublake outlets st = Some r
     \<Longrightarrow> raised_if (0 \<le> apply_slope) st r"
proof (induction outlets arbitrary: st)
  case Nil
  then show ?case by (auto simp: raised_if_refl)
next
  case (Cons outlet_node rest)
  show ?case
  proof (cases "apply_slope_current_lake g apply_slope outlet_node sublake st")
    case None
    with Cons.prems show ?thesis by simp
  next
    case (Some r1)
    note one = apply_slope_current_lake_raised [OF Some]
    show ?thesis
    proof (cases r1)
      case (Inl e)
      with Some Cons.prems show ?thesis by (auto simp: raised_if_def)
    next
      case (Inr st1)
      with Some Cons.prems have "apply_slope_all_lakes g apply_slope sublake rest st1 = Some r"
        by simp
      from Cons.IH [OF this] one Inr show ?thesis
        by (auto intro: raised_if_trans)
    qed
  qed
qed

lemma call_map_depressions_elev:
  "elev (call_map_depressions c pits reroute st) = elev st"
  "original_elev (call_map_depressions c pits reroute st) = original_elev st"
  by (simp_all add: call_map_depressions_def split: prod.splits)

lemma call_route_flow_elev:
  "elev (call_route_flow c st) = elev st"
  "original_elev (call_route_flow c st) = original_elev st"
  by (simp_all add: call_route_flow_def split: prod.splits)

lemma add_depth_raised:
  assumes "add_depression_depth (call_map_depressions c pits reroute st) = Inr st3"
  shows "raised_if (depths_nonneg c) st (Inr st3)"
proof -
  obtain w' a' m where
    m: "map_depressions c (hidden st) pits reroute (elev st) (at_node st) = (w', a', m)"
    by (cases "map_depressions c (hidden st) pits reroute (elev st) (at_node st)") auto
  with assms obtain depth where d: "a' ''depression__depth'' = Some depth"
      and sum: "add_arrays (elev st) depth = Inr (elev st3)"
      and orig: "original_elev st3 = original_elev st"
    by (auto simp: add_depression_depth_def call_map_depressions_def
        split: option.splits sum.splits)
  have nn: "list_all (\<lambda>d. 0 \<le> d) depth" if "depths_nonneg c"
    using that [unfolded depths_nonneg_def, rule_format,
                of "hidden st" pits reroute "elev st" "at_node st"] m d
    by simp
  have "list_all2 (\<le>) (elev st) (elev st3)" if "depths_nonneg c"
  proof (cases "length (elev st) = length depth")
    case True
    with sum have e: "elev st3 = map2 (+) (elev st) depth"
      by (simp add: add_arrays_def)
    from True nn [OF that] show ?thesis
      unfolding e by (simp add: list_all2_conv_all_nth list_all_length)
  next
    case False
    with sum have one: "length depth = 1" and e: "elev st3 = map (\<lambda>x. x + depth ! 0) (elev st)"
      by (auto simp: add_arrays_def split: if_splits)
    from one nn [OF that] have "0 \<le> depth ! 0"
      by (simp add: list_all_length)
    with e show ?thesis
      by (simp add: list_all2_conv_all_nth)
  qed
  with orig show ?thesis
    by (simp add: raised_if_def)
qed

lemma slope_rounds_raised:
  assumes run: "slope_rounds g c apply_slope sublake st = Some r"
  shows "raised_if (depths_nonneg c \<and> 0 \<le> apply_slope) st r"
proof (rule slope_rounds.raw_induct
         [OF _ run, where P = "\<lambda>g c apply_slope sublake st r.
                                  raised_if (depths_nonneg c \<and> 0 \<le> apply_slope) st r"])
  fix self g and c :: "'a collaborators" and apply_slope sublake and st :: "'a hole_filler" and r
  assume IH: "\<And>g c apply_slope sublake st r.
                 self g c apply_slope sublake st = Some r \<Longrightarrow>
                 raised_if (depths_nonneg c \<and> 0 \<le> apply_slope) st r"
    and body: "(case apply_slope_all_lakes g apply_slope sublake (lake_outlets (lf st)) st of
        None \<Rightarrow> None
      | Some (Inl e) \<Rightarrow> Some (Inl e)
      | Some (Inr st1) \<Rightarrow>
        (let st2 = call_map_depressions c None False st1
         in if sum_list (lake_outlets (lf st2)) = 0 then Some (Inr st2)
            else
              (case add_depression_depth st2 of
                 Inl e \<Rightarrow> Some (Inl e)
               | Inr st3 \<Rightarrow> self g c apply_slope True st3))) = Some r"
  let ?b = "depths_nonneg c \<and> 0 \<le> apply_slope"
  show "raised_if ?b st r"
  proof (cases "apply_slope_all_lakes g apply_slope sublake (lake_outlets (lf st)) st")
    case None
    with body show ?thesis by simp
  next
    case (Some r1)
    have one: "raised_if ?b st r1"
      by (rule raised_if_weaken [OF apply_slope_all_lakes_raised [OF Some]]) simp
    show ?thesis
    proof (cases r1)
      case (Inl e)
      with Some body show ?thesis by (auto simp: raised_if_def)
    next
      case (Inr st1)
      let ?st2 = "call_map_depressions c None False st1"
      have two: "raised_if ?b st (Inr ?st2)"
        using one Inr by (simp add: raised_if_def call_map_depressions_elev)
      show ?thesis
      proof (cases "sum_list (lake_outlets (lf ?st2)) = 0")
        case True
        with Some Inr body have "r = Inr ?st2"
          by (simp add: Let_def del: sum_list_eq_0_iff)
        with two show ?thesis by simp
      next
        case False
        show ?thesis
        proof (cases "add_depression_depth ?st2")
          case (Inl e)
          with False Some Inr body have "r = Inl e"
            by (simp add: Let_def del: sum_list_eq_0_iff)
          then show ?thesis by (simp add: raised_if_def)
        next
          case st3: (Inr st3)
          with False Some Inr body have rec: "self g c apply_slope True st3 = Some r"
            by (simp add: Let_def del: sum_list_eq_0_iff)
          have "raised_if ?b st1 (Inr st3)"
            by (rule raised_if_weaken [OF add_depth_raised [OF st3]]) simp
          with one Inr have "raised_if ?b st (Inr st3)" by (auto intro: raised_if_trans)
          moreover have "raised_if ?b st3 r" by (rule IH [OF rec])
          ultimately show ?thesis by (rule raised_if_trans)
        qed
      qed
    qed
  qed
qed

subsection \<open>The stability loop and the main method\<close>

text \<open>
  The name \<open>original_elev\<close> is unbound, so the loop ends at its first unstable round:
  the statements after the lookup are never reached.
\<close>

lemma stabilize_unfold:
  "stabilize g c apply_slope sublake stability_increment st =
     (case slope_rounds g c apply_slope sublake st of
        None \<Rightarrow> None
      | Some (Inl e) \<Rightarrow> Some (Inl e)
      | Some (Inr st1) \<Rightarrow>
        (case drainage_directions_change g
                (where_less (flood_status (lf st1)) (BAD_INDEX_VALUE c))
                (original_elev st1) (elev st1) of
           Inl e \<Rightarrow> Some (Inl e)
         | Inr unstable \<Rightarrow>
             if unstable then Some (Inl (NameError ''original_elev'')) else Some (Inr st1)))"
  by (subst stabilize.simps)
     (simp add: unbound_name_def Let_def split: option.splits sum.splits)

lemma stabilize_Inr:
  assumes "stabilize g c apply_slope sublake k st = Some (Inr st')"
  shows "slope_rounds g c apply_slope sublake st = Some (Inr st')"
    and "drainage_directions_change g (where_less (flood_status (lf st')) (BAD_INDEX_VALUE c))
           (original_elev st') (elev st') = Inr False"
  using assms
  by (auto simp: stabilize_unfold split: option.splits sum.splits if_splits)

lemma note_fields_Inr:
  "note_fields names found = Inr found' \<longleftrightarrow> names = [] \<and> found' = found"
  by (cases names) (auto simp: unbound_name_def)

lemma note_fields_nonempty:
  "names \<noteq> [] \<Longrightarrow> note_fields names found = Inl (NameError ''mg'')"
  by (cases names) (auto simp: unbound_name_def)

lemma fill_pits_named_fields:
  assumes "lf_output_var_names c @ fr_output_var_names c \<noteq> []"
  shows "fill_pits g c st apply_slope = Some (Inl (NameError ''mg''))"
proof -
  from assms have "remdups (lf_output_var_names c @ fr_output_var_names c) \<noteq> []"
    by (simp only: remdups_eq_nil_iff not_False_eq_True)
  then show ?thesis
    by (simp add: fill_pits_def Let_def note_fields_nonempty)
qed

lemma fill_pits_Inr:
  assumes "fill_pits g c st apply_slope = Some (Inr st')"
  obtains st3 st4 where
    "lf_output_var_names c = []" "fr_output_var_names c = []"
    "add_depression_depth
       (call_map_depressions c
          (Some (pit_node_ids (call_route_flow c (st\<lparr>original_elev := elev st\<rparr>)))) False
          (call_route_flow c (st\<lparr>original_elev := elev st\<rparr>))) = Inr st3"
    "(case apply_slope of None \<Rightarrow> Some (Inr st3)
      | Some slope \<Rightarrow> if slope \<noteq> 0 then stabilize g c slope False 0 st3 else Some (Inr st3))
       = Some (Inr st4)"
    "st' = put_back_fields [] [] st4"
  using assms
  by (auto simp: fill_pits_def Let_def note_fields_Inr split: sum.splits option.splits)

lemma fill_pits_raised:
  assumes run: "fill_pits g c st apply_slope = Some (Inr st')"
  shows "original_elev st' = elev st"
    and "sed_fill_depth st' = map2 (\<lambda>z z0. z - z0) (elev st') (elev st)"
    and "depths_nonneg c \<Longrightarrow> (case apply_slope of None \<Rightarrow> True | Some slope \<Rightarrow> 0 < slope)
           \<Longrightarrow> list_all2 (\<le>) (elev st) (elev st')"
proof -
  from run obtain st3 st4 where
      st3: "add_depression_depth
       (call_map_depressions c
          (Some (pit_node_ids (call_route_flow c (st\<lparr>original_elev := elev st\<rparr>)))) False
          (call_route_flow c (st\<lparr>original_elev := elev st\<rparr>))) = Inr st3"
    and st4: "(case apply_slope of None \<Rightarrow> Some (Inr st3)
      | Some slope \<Rightarrow> if slope \<noteq> 0 then stabilize g c slope False 0 st3 else Some (Inr st3))
       = Some (Inr st4)"
    and st': "st' = put_back_fields [] [] st4"
    by (rule fill_pits_Inr)
  let ?st1 = "call_route_flow c (st\<lparr>original_elev := elev st\<rparr>)"
  let ?b = "depths_nonneg c \<and> (case apply_slope of None \<Rightarrow> True | Some slope \<Rightarrow> 0 < slope)"
  have a: "raised_if ?b ?st1 (Inr st3)"
    by (rule raised_if_weaken [OF add_depth_raised [OF st3]]) simp
  have b: "raised_if ?b st3 (Inr st4)"
  proof (cases apply_slope)
    case None
    with st4 show ?thesis by (simp add: raised_if_refl)
  next
    case (Some slope)
    show ?thesis
    proof (cases "slope = 0")
      case True
      with st4 Some show ?thesis by (simp add: raised_if_refl)
    next
      case False
      with st4 Some have "stabilize g c slope False 0 st3 = Some (Inr st4)" by simp
      from stabilize_Inr(1) [OF this]
      have "slope_rounds g c slope False st3 = Some (Inr st4)" .
      from slope_rounds_raised [OF this] show ?thesis
        by (rule raised_if_weaken) (simp add: Some)
    qed
  qed
  from a b have "raised_if ?b ?st1 (Inr st4)" by (rule raised_if_trans)
  then have c: "original_elev st4 = elev st" "?b \<Longrightarrow> list_all2 (\<le>) (elev st) (elev st4)"
    by (simp_all add: raised_if_def call_route_flow_elev)
  from c st' show "original_elev st' = elev st" by (simp add: put_back_fields_def)
  from c st' show "sed_fill_depth st' = map2 (\<lambda>z z0. z - z0) (elev st') (elev st)"
    by (simp add: put_back_fields_def)
  show "list_all2 (\<le>) (elev st) (elev st')"
    if "depths_nonneg c" "case apply_slope of None \<Rightarrow> True | Some slope \<Rightarrow> 0 < slope"
    using c(2) that st' by (simp add: put_back_fields_def)
qed

subsection \<open>Runs on the five by five raster\<close>

lemma margin12: "get_lake_ext_margin raster5 [12] = [6, 7, 8, 11, 13, 16, 17, 18]"
  by (simp add: get_lake_ext_margin_def raster5_def union1d_def setdiff1d_def
        get_neighbor_list_def get_diagonal_list_def no_node_def)

lemma rows12:
  "get_neighbor_list raster5 [6, 7, 8, 11, 13, 16, 17, 18]
     = [[7, 11, 5, 1], [8, 12, 6, 2], [9, 13, 7, 3], [12, 16, 10, 6],
        [14, 18, 12, 8], [17, 21, 15, 11], [18, 22, 16, 12], [19, 23, 17, 13]]"
  by (simp add: raster5_def get_neighbor_list_def)

lemma neighbors13: "neighbors raster5 13 = [14, 18, 12, 8]"
  by (simp add: raster5_def)

lemma change12:
  "drainage_directions_change raster5 [12] (basin z0 z6 a) (basin z0 z6 b)
     = Inr (((2 \<ge> a) \<noteq> (2 \<ge> b)) \<or> ((1 \<ge> a) \<noteq> (1 \<ge> b)))"
  unfolding drainage_directions_change_def margin12 Let_def rows12
  by (auto simp add: take_rows_def take_nodes_def basin_def ge_rows_def)

lemma change_nowhere: "drainage_directions_change g [] old_elevs new_elevs = Inr False"
  by (simp add: drainage_directions_change_def get_lake_ext_margin_def union1d_def
        setdiff1d_def get_neighbor_list_def get_diagonal_list_def take_rows_def take_nodes_def
        ge_rows_def)

lemma lake12_nodes: "where_eq (on_node12 13 no_node) 13 = [12]"
  by (simp add: where_eq_def on_node12_def no_node_def)

lemma nothing_flooded: "where_less (on_node12 no_node no_node) no_node = []"
  by (simp add: where_less_def on_node12_def)

lemma flooded12: "where_less (on_node12 3 no_node) no_node = [12]"
  by (simp add: where_less_def on_node12_def no_node_def)

lemma pond_simps:
  "lf_output_var_names (pond lf_names fr_names later later_depth) = lf_names"
  "fr_output_var_names (pond lf_names fr_names later later_depth) = fr_names"
  "BAD_INDEX_VALUE (pond lf_names fr_names later later_depth) = no_node"
  by (simp_all add: pond_def)

lemma pond_depths_nonneg:
  assumes "list_all (\<lambda>d. 0 \<le> d) later_depth"
  shows "depths_nonneg (pond lf_names fr_names later later_depth)"
  using assms by (simp add: depths_nonneg_def pond_def on_node12_def)

lemma tilt12:
  assumes "elev st = basin z0 z6 a" and "depression_outlet (lf st) = on_node12 13 no_node"
  shows "add_slopes raster5 st slope 13 = Inr (basin z0 z6 (a + slope), [12])"
  unfolding add_slopes_def Let_def assms lake12_nodes
  by (simp add: raster5_def get_distances_of_nodes_to_point_def take_nodes_def add_at_def
        basin_def)

lemma tilt_lake12:
  assumes "elev st = basin z0 z6 1" and "depression_outlet (lf st) = on_node12 13 no_node"
  shows "apply_slope_current_lake raster5 (1 / 1000) 13 False st
           = Some (Inr (st\<lparr>elev := basin z0 z6 (1001 / 1000)\<rparr>))"
  by (subst apply_slope_current_lake.simps)
     (simp add: tilt12 [OF assms] assms Let_def change12)

lemma rounds12:
  assumes "elev st = basin z0 z6 1" and "lf st = lake12"
    and "sum_list (lake_outlets later) = 0"
  shows "slope_rounds raster5 (pond lf_names fr_names later later_depth) (1 / 1000) False st
           = Some (Inr (st\<lparr>elev := basin z0 z6 (1001 / 1000),
                           at_node := (at_node st)(''depression__depth'' \<mapsto> later_depth),
                           lf := later\<rparr>))"
proof -
  have dep: "depression_outlet (lf st) = on_node12 13 no_node"
    using assms(2) by (simp add: lake12_def)
  have "apply_slope_all_lakes raster5 (1 / 1000) False (lake_outlets (lf st)) st
          = Some (Inr (st\<lparr>elev := basin z0 z6 (1001 / 1000)\<rparr>))"
    using assms(2) by (simp add: lake12_def tilt_lake12 [OF assms(1) dep])
  then show ?thesis
    by (subst slope_rounds.simps)
       (simp add: call_map_depressions_def pond_def basin_def assms(3) del: sum_list_eq_0_iff)
qed

lemma stabilize12:
  assumes "elev st = basin z0 z6 1" and "lf st = lake12"
    and "sum_list (lake_outlets later) = 0"
  shows "stabilize raster5 (pond lf_names fr_names later later_depth) (1 / 1000) False k st
           = (case drainage_directions_change raster5
                     (where_less (flood_status later) no_node)
                     (original_elev st) (basin z0 z6 (1001 / 1000)) of
                Inl e \<Rightarrow> Some (Inl e)
              | Inr unstable \<Rightarrow>
                  if unstable then Some (Inl (NameError ''original_elev''))
                  else Some (Inr (st\<lparr>elev := basin z0 z6 (1001 / 1000),
                           at_node := (at_node st)(''depression__depth'' \<mapsto> later_depth),
                           lf := later\<rparr>)))"
  by (simp add: stabilize_unfold rounds12 [OF assms] pond_simps)

lemma flat_fill12:
  assumes "z12 < 1"
  shows "add_depression_depth
           (call_map_depressions (pond lf_names fr_names later later_depth)
              (Some (pit_node_ids (call_route_flow (pond lf_names fr_names later later_depth)
                   ((filler (basin z0 z6 z12))\<lparr>original_elev := basin z0 z6 z12\<rparr>)))) False
              (call_route_flow (pond lf_names fr_names later later_depth)
                   ((filler (basin z0 z6 z12))\<lparr>original_elev := basin z0 z6 z12\<rparr>)))
         = Inr (filled z0 z6 z12)"
  using assms
  by (simp add: add_depression_depth_def call_map_depressions_def call_route_flow_def
        pond_def basin_def filler_def filled_def add_arrays_def on_node12_def)

lemma filler_elev: "elev (filler z) = z"
  by (simp add: filler_def)

lemma filled_simps:
  "elev (filled z0 z6 z12) = basin z0 z6 1"
  "original_elev (filled z0 z6 z12) = basin z0 z6 z12"
  "lf (filled z0 z6 z12) = lake12"
  by (simp_all add: filled_def)

lemma flat_run:
  "fill_pits raster5 (pond [] [] later later_depth) (filler (basin 2 2 0)) None
     = Some (Inr \<lparr>elev = basin 2 2 1, original_elev = basin 2 2 0,
                sed_fill_depth = on_node12 1 0,
                at_node = [''depression__depth'' \<mapsto> on_node12 1 0],
                lf = lake12, pit_node_ids = [12], hidden = ()\<rparr>)"
  unfolding fill_pits_def Let_def
  apply (simp add: pond_simps filler_elev flat_fill12)
  apply (simp add: filled_def put_back_fields_def basin_def on_node12_def)
  done

lemma sloped_run:
  "fill_pits raster5 (pond [] [] no_lake (on_node12 0 0)) (filler (basin 2 2 0)) (Some (1 / 1000))
     = Some (Inr \<lparr>elev = basin 2 2 (1001 / 1000), original_elev = basin 2 2 0,
                sed_fill_depth = on_node12 (1001 / 1000) 0,
                at_node = [''depression__depth'' \<mapsto> on_node12 0 0],
                lf = no_lake, pit_node_ids = [12], hidden = ()\<rparr>)"
  unfolding fill_pits_def Let_def
  apply (simp add: pond_simps filler_elev flat_fill12)
  apply (simp add: stabilize12 filled_simps no_lake_def nothing_flooded change_nowhere)
  apply (simp add: filled_def put_back_fields_def basin_def on_node12_def)
  done

subsection \<open>A sloped fill beside a low margin node\<close>

lemma change_shelf:
  "drainage_directions_change raster5 [12] (shelf 1) (shelf (1001 / 1000)) = Inr True"
  unfolding drainage_directions_change_def margin12 Let_def rows12
  by (simp add: take_rows_def take_nodes_def shelf_def ge_rows_def)

lemma tilt_shelf:
  assumes "elev st = shelf a" and "depression_outlet (lf st) = on_node12 13 no_node"
  shows "add_slopes raster5 st slope 13 = Inr (shelf (a + slope), [12])"
  unfolding add_slopes_def Let_def assms lake12_nodes
  by (simp add: raster5_def get_distances_of_nodes_to_point_def take_nodes_def add_at_def
        shelf_def)

lemma tilt_lake_shelf:
  assumes "elev st = shelf 1" and "depression_outlet (lf st) = on_node12 13 no_node"
  shows "apply_slope_current_lake raster5 (1 / 1000) 13 False st
           = Some (Inr (st\<lparr>elev := shelf (1001 / 1000)\<rparr>))"
  by (subst apply_slope_current_lake.simps)
     (simp add: tilt_shelf [OF assms] assms Let_def change_shelf)

lemma rounds_shelf:
  assumes "elev st = shelf 1" and "lf st = lake12"
  shows "slope_rounds raster5 (pond [] [] no_lake (on_node12 0 0)) (1 / 1000) False st
           = Some (Inr (st\<lparr>elev := shelf (1001 / 1000),
                           at_node := (at_node st)(''depression__depth'' \<mapsto> on_node12 0 0),
                           lf := no_lake\<rparr>))"
proof -
  have dep: "depression_outlet (lf st) = on_node12 13 no_node"
    using assms(2) by (simp add: lake12_def)
  have "apply_slope_all_lakes raster5 (1 / 1000) False (lake_outlets (lf st)) st
          = Some (Inr (st\<lparr>elev := shelf (1001 / 1000)\<rparr>))"
    using assms(2) by (simp add: lake12_def tilt_lake_shelf [OF assms(1) dep])
  then show ?thesis
    by (subst slope_rounds.simps)
       (simp add: call_map_depressions_def pond_def shelf_def no_lake_def)
qed

lemma stabilize_shelf:
  assumes "elev st = shelf 1" and "lf st = lake12"
  shows "stabilize raster5 (pond [] [] no_lake (on_node12 0 0)) (1 / 1000) False k st
           = Some (Inr (st\<lparr>elev := shelf (1001 / 1000),
                           at_node := (at_node st)(''depression__depth'' \<mapsto> on_node12 0 0),
                           lf := no_lake\<rparr>))"
  by (simp add: stabilize_unfold rounds_shelf [OF assms] pond_simps)
     (simp add: no_lake_def nothing_flooded change_nowhere)

lemma flat_fill_shelf:
  "add_depression_depth
           (call_map_depressions (pond [] [] no_lake (on_node12 0 0))
              (Some (pit_node_ids (call_route_flow (pond [] [] no_lake (on_node12 0 0))
                   ((filler (shelf 0))\<lparr>original_elev := shelf 0\<rparr>)))) False
              (call_route_flow (pond [] [] no_lake (on_node12 0 0))
                   ((filler (shelf 0))\<lparr>original_elev := shelf 0\<rparr>)))
         = Inr \<lparr>elev = shelf 1, original_elev = shelf 0,
                sed_fill_depth = on_node12 0 0,
                at_node = [''depression__depth'' \<mapsto> on_node12 1 0],
                lf = lake12, pit_node_ids = [12], hidden = ()\<rparr>"
  by (simp add: add_depression_depth_def call_map_depressions_def call_route_flow_def
        pond_def shelf_def filler_def add_arrays_def on_node12_def)

lemma shelf_run:
  "fill_pits raster5 (pond [] [] no_lake (on_node12 0 0)) (filler (shelf 0)) (Some (1 / 1000))
     = Some (Inr \<lparr>elev = shelf (1001 / 1000), original_elev = shelf 0,
                sed_fill_depth = on_node12 (1001 / 1000) 0,
                at_node = [''depression__depth'' \<mapsto> on_node12 0 0],
                lf = no_lake, pit_node_ids = [12], hidden = ()\<rparr>)"
  unfolding fill_pits_def Let_def
  apply (simp add: pond_simps filler_elev flat_fill_shelf)
  apply (simp add: stabilize_shelf)
  apply (simp add: put_back_fields_def shelf_def on_node12_def)
  done

subsection \<open>A tilt that changes nothing is retried without end\<close>

lemma diagonal_lake_nodes: "where_eq (on_node12 18 no_node) 18 = [12]"
  by (simp add: where_eq_def on_node12_def no_node_def)

lemma tilt_diagonal:
  assumes "elev st = ridge a" and "depression_outlet (lf st) = on_node12 18 no_node"
  shows "add_slopes raster5 st slope 18 = Inr (ridge (a + slope * sqrt 2), [12])"
  unfolding add_slopes_def Let_def assms diagonal_lake_nodes
  by (simp add: raster5_def get_distances_of_nodes_to_point_def take_nodes_def add_at_def
        ridge_def)

lemma change_diagonal:
  "drainage_directions_change raster5 [12] (ridge a) (ridge b) = Inr ((2 \<ge> a) \<noteq> (2 \<ge> b))"
  unfolding drainage_directions_change_def margin12 Let_def rows12
  by (auto simp add: take_rows_def take_nodes_def ridge_def ge_rows_def)

lemma small_tilt: 
  assumes "0 \<le> slope" "slope \<le> 1 / 2"
  shows "1 + slope * sqrt 2 \<le> 2"
proof -
  have "sqrt 2 \<le> 2" by (rule real_le_lsqrt) simp_all
  with assms have "slope * sqrt 2 \<le> (1 / 2) * 2"
    by (intro mult_mono) simp_all
  then show ?thesis by simp
qed

lemma put_back_diagonal:
  "put_at (ridge a) [12] [1] = Inr (ridge 1)"
  by (simp add: put_at_def ridge_def)

lemma diagonal_tilt_loops:
  assumes run: "apply_slope_current_lake g apply_slope outlet_node sublake st = Some r"
  shows "\<not> (g = raster5 \<and> outlet_node = 18 \<and> \<not> sublake \<and> st = filled_diagonal
            \<and> 0 \<le> apply_slope \<and> apply_slope \<le> 1 / 2)"
proof (rule apply_slope_current_lake.raw_induct
         [OF _ run, where P = "\<lambda>g apply_slope outlet_node sublake st r.
            \<not> (g = raster5 \<and> outlet_node = 18 \<and> \<not> sublake \<and> st = filled_diagonal
               \<and> 0 \<le> apply_slope \<and> apply_slope \<le> 1 / 2)"], rule notI, elim conjE)
  fix self g apply_slope outlet_node sublake and st :: "unit hole_filler" and r
  assume IH: "\<And>g apply_slope outlet_node sublake st r.
                  self g apply_slope outlet_node sublake st = Some r \<Longrightarrow>
                  \<not> (g = raster5 \<and> outlet_node = 18 \<and> \<not> sublake \<and> st = filled_diagonal
                     \<and> 0 \<le> apply_slope \<and> apply_slope \<le> 1 / 2)"
    and body: "(let starting_elevs = elev st
      in case add_slopes g st apply_slope outlet_node of
           Inl e \<Rightarrow> Some (Inl e)
         | Inr tilted \<Rightarrow>
           (let st1 = st\<lparr>elev := fst tilted\<rparr>;
                lake_nodes = snd tilted;
                ext_edge = get_lake_ext_margin g lake_nodes
            in if sublake then Some (Inr st1)
               else
                 (case drainage_directions_change g lake_nodes starting_elevs (elev st1) of
                    Inl e \<Rightarrow> Some (Inl e)
                  | Inr changed \<Rightarrow>
                    if changed then Some (Inr st1)
                    else
                      (case take_nodes starting_elevs lake_nodes of
                         Inl e \<Rightarrow> Some (Inl e)
                       | Inr vals \<Rightarrow>
                         (case put_at (elev st1) lake_nodes vals of
                            Inl e \<Rightarrow> Some (Inl e)
                          | Inr put_back \<Rightarrow>
                            self g (apply_slope * (1 / 10)) outlet_node sublake
                              (st1\<lparr>elev := put_back\<rparr>)))))) = Some r"
    and a1: "g = raster5" and a2: "outlet_node = 18" and sub: "\<not> sublake"
    and a3: "st = filled_diagonal"
    and range: "0 \<le> apply_slope" "apply_slope \<le> 1 / 2"
  have e: "elev filled_diagonal = ridge 1" by (simp add: filled_diagonal_def)
  have t: "take_nodes (ridge 1) [12] = Inr [1]" by (simp add: take_nodes_def ridge_def)
  have same: "filled_diagonal\<lparr>elev := ridge 1\<rparr> = filled_diagonal"
    by (simp add: filled_diagonal_def)
  have d: "depression_outlet (lf filled_diagonal) = on_node12 18 no_node"
    by (simp add: filled_diagonal_def diagonal_lake_def)
  from sub have sub': "sublake = False" by simp
  from body have "self raster5 (apply_slope * (1 / 10)) 18 False filled_diagonal = Some r"
    unfolding a1 a2 a3 sub' Let_def tilt_diagonal [OF e d] e
    using small_tilt [OF range]
    by (simp add: change_diagonal t put_back_diagonal same)
  from IH [OF this] range show False by simp
qed

lemma diagonal_tilt_never_returns:
  "apply_slope_current_lake raster5 (1 / 1000) 18 False filled_diagonal = None"
proof (cases "apply_slope_current_lake raster5 (1 / 1000) 18 False filled_diagonal")
  case None
  then show ?thesis .
next
  case (Some r)
  from diagonal_tilt_loops [OF this] show ?thesis by simp
qed

section \<open>The claims\<close>

text \<open>
  C8. For every list of lake nodes, \<open>get_lake_ext_margin\<close> returns exactly the orthogonal
  and diagonal neighbours of the lake nodes that are not lake nodes themselves; in
  particular the result shares no node with the lake.
\<close>

theorem get_lake_ext_margin_exact:
  "set (get_lake_ext_margin g lake_nodes)
     = (\<Union>l \<in> set lake_nodes. set (neighbors g l) \<union> set (diagonals g l)) - set lake_nodes
   \<and> set (get_lake_ext_margin g lake_nodes) \<inter> set lake_nodes = {}"
  by (auto simp: get_lake_ext_margin_def set_union1d set_setdiff1d
                 get_neighbor_list_def get_diagonal_list_def)

text \<open>
  C2, as the code has it. Where every index it reads is in range,
  \<open>drainage_directions_change\<close> returns true exactly when some external-margin node
  \<open>e\<close> of the lake and some orthogonal neighbour \<open>n\<close> of \<open>e\<close> have
  \<open>old[e] \<ge> old[n]\<close> different from \<open>old[e] \<ge> new[n]\<close>: the neighbour's elevation is
  taken from the respective state, the margin node's from the old state on both sides.
  Where an index is out of range it raises IndexError. It returns a value and changes
  nothing.
\<close>

theorem drainage_directions_change_old_margin:
  "drainage_directions_change g lake_nodes old_elevs new_elevs =
     (if margin_in_range g lake_nodes old_elevs new_elevs
      then Inr (\<exists>e \<in> set (get_lake_ext_margin g lake_nodes). \<exists>n \<in> set (neighbors g e).
                  relation_flips old_elevs new_elevs e n)
      else Inl IndexError)"
  by (rule drainage_directions_change_cases)

text \<open>
  On the raster, for the lake of node 12 filled to the level 1 of its outlet 13 and then
  tilted by 1/1000: the indices are in range, the relation of the margin node 13 to its
  neighbour 12 flips, and the test reports a change.
\<close>

theorem drainage_directions_change_old_margin_witness:
  "margin_in_range raster5 [12] (basin 2 2 1) (basin 2 2 (1001 / 1000))
   \<and> 13 \<in> set (get_lake_ext_margin raster5 [12])
   \<and> 12 \<in> set (neighbors raster5 13)
   \<and> relation_flips (basin 2 2 1) (basin 2 2 (1001 / 1000)) 13 12
   \<and> drainage_directions_change raster5 [12] (basin 2 2 1) (basin 2 2 (1001 / 1000)) = Inr True"
proof -
  have r: "margin_in_range raster5 [12] (basin 2 2 1) (basin 2 2 (1001 / 1000))"
    unfolding margin_in_range_def margin12 by (simp add: raster5_def basin_def)
  have e: "13 \<in> set (get_lake_ext_margin raster5 [12])"
    by (simp add: margin12)
  have n: "12 \<in> set (neighbors raster5 13)"
    by (simp add: neighbors13)
  have f: "relation_flips (basin 2 2 1) (basin 2 2 (1001 / 1000)) 13 12"
    by (simp add: relation_flips_def basin_def)
  from e n f
  have "\<exists>e \<in> set (get_lake_ext_margin raster5 [12]). \<exists>n \<in> set (neighbors raster5 e).
          relation_flips (basin 2 2 1) (basin 2 2 (1001 / 1000)) e n"
    by blast
  with r e n f
    drainage_directions_change_old_margin
      [of raster5 "[12]" "basin 2 2 1" "basin 2 2 (1001 / 1000)"]
  show ?thesis by simp
qed

text \<open>
  C2 as stated fails. Lower the margin node 13 from 1 to 0 and leave node 12 at 1: the
  relation \<open>elevations[13] \<ge> elevations[12]\<close> holds in the old state and fails in the
  new one, yet the test reports no change, because it reads the margin node's elevation
  from the old state on both sides.
\<close>

theorem drainage_directions_change_misses_lowered_margin:
  "drainage_directions_change raster5 [12] (basin 2 2 1) ((basin 2 2 1)[13 := 0]) = Inr False
   \<and> 13 \<in> set (get_lake_ext_margin raster5 [12])
   \<and> 12 \<in> set (neighbors raster5 13)
   \<and> relation_flips_spec (basin 2 2 1) ((basin 2 2 1)[13 := 0]) 13 12"
proof -
  have "drainage_directions_change raster5 [12] (basin 2 2 1) ((basin 2 2 1)[13 := 0])
          = Inr False"
    unfolding drainage_directions_change_def margin12 Let_def rows12
    by (simp add: take_rows_def take_nodes_def basin_def ge_rows_def)
  then show ?thesis
    by (simp add: margin12 neighbors13 relation_flips_spec_def basin_def)
qed

text \<open>
  C7. When \<open>add_slopes\<close> returns, the array it returns has the length of the current
  elevations; at every node whose depression outlet is \<open>outlet_node\<close> it holds the
  current elevation plus the slope times the planar distance from the node to the outlet
  node, at every other node the current elevation. The function returns the array and
  the lake nodes; the elevations of the component are not part of its result.
\<close>

theorem add_slopes_tilts_lake:
  assumes "add_slopes g st slope outlet_node = Inr (new_elevs, lake_nodes)"
  shows "length new_elevs = length (elev st)
         \<and> (\<forall>i < length (elev st).
               new_elevs ! i =
                 (if i < length (depression_outlet (lf st))
                     \<and> depression_outlet (lf st) ! i = outlet_node
                  then elev st ! i + slope * planar_distance g i outlet_node
                  else elev st ! i))"
  using add_slopes_Inr [OF assms]
  by (simp add: set_where_eq)

text \<open>On the raster: the filled lake of node 12 is tilted towards node 13, at distance 1.\<close>

theorem add_slopes_tilts_lake_witness:
  "add_slopes raster5 (filled 2 2 0) (1 / 1000) 13 = Inr (basin 2 2 (1001 / 1000), [12])
   \<and> planar_distance raster5 12 13 = 1
   \<and> basin 2 2 (1001 / 1000) ! 12 = elev (filled 2 2 0) ! 12 + 1 / 1000 * planar_distance raster5 12 13
   \<and> basin 2 2 (1001 / 1000) ! 11 = elev (filled 2 2 0) ! 11"
proof -
  have run: "add_slopes raster5 (filled 2 2 0) (1 / 1000) 13 = Inr (basin 2 2 (1001 / 1000), [12])"
    using tilt12 [of "filled 2 2 0" 2 2 1 "1 / 1000"]
    by (simp add: filled_def lake12_def)
  have d: "planar_distance raster5 12 13 = 1"
    by (simp add: planar_distance_def raster5_def)
  from add_slopes_tilts_lake [OF run] run d show ?thesis
    by (simp add: filled_def basin_def lake12_def on_node12_def)
qed

text \<open>
  C10. A slope of 0.0 is not truthy: \<open>fill_pits\<close> with \<open>apply_slope = 0.0\<close> and with
  \<open>apply_slope = None\<close> are the same function of the initial state.
\<close>

theorem zero_slope_is_no_slope:
  "fill_pits g c st (Some 0) = fill_pits g c st None"
  by (simp add: fill_pits_def Let_def split: sum.split)

text \<open>
  C5. After a call of \<open>fill_pits\<close> that returns, with or without a slope, the output
  field is the final elevations minus the elevations before the call and is elementwise
  non-negative, provided every depth the mapper publishes is non-negative and the slope,
  if there is one, is positive.
\<close>

theorem sed_fill_depth_nonneg:
  assumes "fill_pits g c st apply_slope = Some (Inr st')"
    and "depths_nonneg c"
    and "case apply_slope of None \<Rightarrow> True | Some slope \<Rightarrow> 0 < slope"
  shows "sed_fill_depth st' = map2 (\<lambda>z z0. z - z0) (elev st') (elev st)
         \<and> list_all (\<lambda>d. 0 \<le> d) (sed_fill_depth st')"
  using fill_pits_raised [OF assms(1)] assms(2,3)
  by (auto simp: list_all2_conv_all_nth list_all_length)

text \<open>
  On the raster: the flat fill of the pond raises node 12 by 1, the sloped fill with
  slope 1/1000 by 1001/1000, and no other node.
\<close>

theorem sed_fill_depth_nonneg_witness:
  "fill_pits raster5 (pond [] [] no_lake (on_node12 0 0)) (filler (basin 2 2 0)) None
     = Some (Inr \<lparr>elev = basin 2 2 1, original_elev = basin 2 2 0,
                sed_fill_depth = on_node12 1 0,
                at_node = [''depression__depth'' \<mapsto> on_node12 1 0],
                lf = lake12, pit_node_ids = [12], hidden = ()\<rparr>)
   \<and> fill_pits raster5 (pond [] [] no_lake (on_node12 0 0)) (filler (basin 2 2 0))
         (Some (1 / 1000))
     = Some (Inr \<lparr>elev = basin 2 2 (1001 / 1000), original_elev = basin 2 2 0,
                sed_fill_depth = on_node12 (1001 / 1000) 0,
                at_node = [''depression__depth'' \<mapsto> on_node12 0 0],
                lf = no_lake, pit_node_ids = [12], hidden = ()\<rparr>)
   \<and> depths_nonneg (pond [] [] no_lake (on_node12 0 0))
   \<and> list_all (\<lambda>d. 0 \<le> d) (on_node12 1 (0 :: real))
   \<and> list_all (\<lambda>d. 0 \<le> d) (on_node12 (1001 / 1000) (0 :: real))"
proof -
  have nn: "depths_nonneg (pond [] [] no_lake (on_node12 0 0))"
    by (rule pond_depths_nonneg) (simp add: on_node12_def)
  have pos: "case Some (1 / 1000 :: real) of None \<Rightarrow> True | Some slope \<Rightarrow> 0 < slope"
    by simp
  have none: "case (None :: real option) of None \<Rightarrow> True | Some slope \<Rightarrow> 0 < slope"
    by simp
  from sed_fill_depth_nonneg [OF flat_run nn none, THEN conjunct2]
  have "list_all (\<lambda>d. 0 \<le> d) (on_node12 1 (0 :: real))"
    by simp
  moreover from sed_fill_depth_nonneg [OF sloped_run nn pos, THEN conjunct2]
  have "list_all (\<lambda>d. 0 \<le> d) (on_node12 (1001 / 1000) (0 :: real))"
    by simp
  ultimately show ?thesis using flat_run sloped_run nn
    by (intro conjI)
qed

text \<open>
  C1 fails on the code. On the raster with node 11 at 10005/10000 the mapper reports, for
  the pit 12, the lake of node 12 with outlet 13. The test on the tilt of that lake by
  1/1000 reports a change, the tilt is accepted all the same, and the sloped fill
  returns. Nodes 11 and 13 are on the external margin of the lake and node 12 is an
  orthogonal neighbour of both. Before the fill neither is below node 12 (at 0); after it
  both are below node 12 (at 1001/1000): the relation is reversed at the outlet 13 and at
  the margin node 11, which is not the outlet.
\<close>

theorem sloped_fill_reverses_margin_relations:
  "map_depressions (pond [] [] no_lake (on_node12 0 0)) () (Some [12]) False
       (shelf 0) Map.empty
     = ((), [''depression__depth'' \<mapsto> on_node12 1 0], lake12)
   \<and> where_eq (depression_outlet lake12) 13 = [12]
   \<and> drainage_directions_change raster5 [12] (shelf 1) (shelf (1001 / 1000)) = Inr True
   \<and> fill_pits raster5 (pond [] [] no_lake (on_node12 0 0)) (filler (shelf 0))
         (Some (1 / 1000))
     = Some (Inr \<lparr>elev = shelf (1001 / 1000), original_elev = shelf 0,
                sed_fill_depth = on_node12 (1001 / 1000) 0,
                at_node = [''depression__depth'' \<mapsto> on_node12 0 0],
                lf = no_lake, pit_node_ids = [12], hidden = ()\<rparr>)
   \<and> 11 \<in> set (get_lake_ext_margin raster5 [12])
   \<and> 12 \<in> set (neighbors raster5 11)
   \<and> relation_flips_spec (shelf 0) (shelf (1001 / 1000)) 11 12
   \<and> 13 \<in> set (get_lake_ext_margin raster5 [12])
   \<and> 12 \<in> set (neighbors raster5 13)
   \<and> relation_flips_spec (shelf 0) (shelf (1001 / 1000)) 13 12"
proof -
  have "map_depressions (pond [] [] no_lake (on_node12 0 0)) () (Some [12]) False
          (shelf 0) Map.empty
        = ((), [''depression__depth'' \<mapsto> on_node12 1 0], lake12)"
    by (simp add: pond_def shelf_def)
  moreover have "where_eq (depression_outlet lake12) 13 = [12]"
    by (simp add: lake12_def lake12_nodes)
  moreover note change_shelf shelf_run
  moreover have "11 \<in> set (get_lake_ext_margin raster5 [12])"
    and "13 \<in> set (get_lake_ext_margin raster5 [12])"
    by (simp_all add: margin12)
  moreover have "12 \<in> set (neighbors raster5 11)"
    by (simp add: raster5_def)
  moreover have "12 \<in> set (neighbors raster5 13)"
    by (simp add: neighbors13)
  moreover have "relation_flips_spec (shelf 0) (shelf (1001 / 1000)) 11 12"
    and "relation_flips_spec (shelf 0) (shelf (1001 / 1000)) 13 12"
    by (simp_all add: relation_flips_spec_def shelf_def)
  ultimately show ?thesis by (intro conjI)
qed

text \<open>
  C3 fails on the code. On the raster, for the lake of node 12 with outlet 13 that is
  not a subsidiary lake, the drainage test on the tilt by 1/1000 reports a change, and
  \<open>apply_slope_current_lake\<close> returns with the tilted elevations in place: it accepts
  the tilt when the test reports a change. For the lake of node 12 with the diagonal
  outlet 18 the test on the tilt by 1/1000 reports the margin relations preserved, and
  the tilt is not accepted: the elevations are put back, the slope is divided by 10 and
  the lake is tried again, without end.
\<close>

theorem tilt_accepted_on_reported_change:
  "drainage_directions_change raster5 [12] (elev (filled 2 2 0)) (basin 2 2 (1001 / 1000))
     = Inr True
   \<and> apply_slope_current_lake raster5 (1 / 1000) 13 False (filled 2 2 0)
     = Some (Inr ((filled 2 2 0)\<lparr>elev := basin 2 2 (1001 / 1000)\<rparr>))
   \<and> add_slopes raster5 filled_diagonal (1 / 1000) 18
     = Inr (ridge (1 + 1 / 1000 * sqrt 2), [12])
   \<and> drainage_directions_change raster5 [12] (elev filled_diagonal)
        (ridge (1 + 1 / 1000 * sqrt 2)) = Inr False
   \<and> apply_slope_current_lake raster5 (1 / 1000) 18 False filled_diagonal = None"
proof -
  have "drainage_directions_change raster5 [12] (elev (filled 2 2 0)) (basin 2 2 (1001 / 1000))
          = Inr True"
    by (simp add: filled_simps change12)
  moreover have "apply_slope_current_lake raster5 (1 / 1000) 13 False (filled 2 2 0)
          = Some (Inr ((filled 2 2 0)\<lparr>elev := basin 2 2 (1001 / 1000)\<rparr>))"
    by (rule tilt_lake12) (simp_all add: filled_simps lake12_def)
  moreover have "add_slopes raster5 filled_diagonal (1 / 1000) 18
          = Inr (ridge (1 + 1 / 1000 * sqrt 2), [12])"
    by (rule tilt_diagonal) (simp_all add: filled_diagonal_def diagonal_lake_def)
  moreover have "drainage_directions_change raster5 [12] (elev filled_diagonal)
          (ridge (1 + 1 / 1000 * sqrt 2)) = Inr False"
    using small_tilt [of "1 / 1000"]
    by (simp add: filled_diagonal_def change_diagonal)
  moreover note diagonal_tilt_never_returns
  ultimately show ?thesis by (intro conjI)
qed

text \<open>
  C4 fails on the code. Whenever the last test of a round reports a change, the
  stability loop ends with NameError for the unbound name \<open>original_elev\<close>, whatever
  the retry counter: the elevations are not reset, the counter is not incremented, and
  the error of the tenth retry is never reached. On the raster, with a mapper that keeps
  node 12 marked as flooded in its last pass, the last test of the sloped fill reports a
  change and \<open>fill_pits\<close> raises that NameError.
\<close>

theorem unstable_fill_raises_name_error:
  "stabilize g c apply_slope sublake stability_increment st =
     (case slope_rounds g c apply_slope sublake st of
        None \<Rightarrow> None
      | Some (Inl e) \<Rightarrow> Some (Inl e)
      | Some (Inr st1) \<Rightarrow>
        (case drainage_directions_change g
                (where_less (flood_status (lf st1)) (BAD_INDEX_VALUE c))
                (original_elev st1) (elev st1) of
           Inl e \<Rightarrow> Some (Inl e)
         | Inr unstable \<Rightarrow>
             if unstable then Some (Inl (NameError ''original_elev'')) else Some (Inr st1)))
   \<and> drainage_directions_change raster5 (where_less (flood_status flagged12) no_node)
       (basin 2 2 0) (basin 2 2 (1001 / 1000)) = Inr True
   \<and> fill_pits raster5 (pond [] [] flagged12 (on_node12 0 0)) (filler (basin 2 2 0))
         (Some (1 / 1000))
     = Some (Inl (NameError ''original_elev''))"
proof -
  have t: "drainage_directions_change raster5 (where_less (flood_status flagged12) no_node)
             (basin 2 2 0) (basin 2 2 (1001 / 1000)) = Inr True"
    by (simp add: flagged12_def flooded12 change12)
  have "fill_pits raster5 (pond [] [] flagged12 (on_node12 0 0)) (filler (basin 2 2 0))
          (Some (1 / 1000))
        = Some (Inl (NameError ''original_elev''))"
    unfolding fill_pits_def Let_def
    apply (simp add: pond_simps filler_elev flat_fill12)
    apply (simp add: stabilize12 filled_simps t flagged12_def [THEN arg_cong [where f = lake_outlets]])
    done
  with t stabilize_unfold [of g c apply_slope sublake stability_increment st]
  show ?thesis by (intro conjI)
qed

text \<open>
  C6 fails on the code. On the raster with node 6 at 10005/10000 and the corner node 0 at
  10008/10000, tilting the lake of node 12 leaves node 6 in a pit; the mapping pass
  reports one lake, of node 6, with outlet 0 and depth 3/10000. The sum of the outlet ids
  is 0, so the slope rounds end there: the depth is not added (node 6 stays at
  10005/10000) and no further tilt round is made.
\<close>

theorem slope_rounds_end_at_outlet_zero:
  "lake_outlets corner_lake = [0]
   \<and> slope_rounds raster5 (pond [] [] corner_lake corner_depth) (1 / 1000) False
       (filled (10008 / 10000) (10005 / 10000) 0)
     = Some (Inr ((filled (10008 / 10000) (10005 / 10000) 0)
                    \<lparr>elev := basin (10008 / 10000) (10005 / 10000) (1001 / 1000),
                      at_node := [''depression__depth'' \<mapsto> corner_depth],
                      lf := corner_lake\<rparr>))"
proof -
  have "slope_rounds raster5 (pond [] [] corner_lake corner_depth) (1 / 1000) False
          (filled (10008 / 10000) (10005 / 10000) 0)
        = Some (Inr ((filled (10008 / 10000) (10005 / 10000) 0)
                    \<lparr>elev := basin (10008 / 10000) (10005 / 10000) (1001 / 1000),
                      at_node := (at_node (filled (10008 / 10000) (10005 / 10000) 0))
                                   (''depression__depth'' \<mapsto> corner_depth),
                      lf := corner_lake\<rparr>))"
    by (rule rounds12) (simp_all add: filled_simps corner_lake_def)
  then show ?thesis
    by (simp add: filled_def corner_lake_def)
qed

text \<open>
  C9 fails on the code. Whenever a collaborator names an output field, \<open>fill_pits\<close>
  raises NameError for the unbound name \<open>mg\<close> in its first loop: no field is captured,
  restored or deleted, and the method does not return. On the raster so with the fields
  \<open>depression__depth\<close> and \<open>flow_receiver\<close>, of which the second exists on the grid.
\<close>

theorem fill_pits_fields_raise_name_error:
  "fill_pits g (c\<lparr>lf_output_var_names := name # names\<rparr>) st apply_slope
     = Some (Inl (NameError ''mg''))
   \<and> fill_pits g (c\<lparr>lf_output_var_names := [], fr_output_var_names := name # names\<rparr>)
         st apply_slope
     = Some (Inl (NameError ''mg''))
   \<and> fill_pits raster5
         (pond [''depression__depth''] [''flow_receiver''] no_lake (on_node12 0 0))
         ((filler (basin 2 2 0))\<lparr>at_node := [''flow_receiver'' \<mapsto> on_node12 13 0]\<rparr>) None
     = Some (Inl (NameError ''mg''))"
  by (simp add: fill_pits_named_fields pond_simps)

end
